theory Spec2Isabelle
  imports Main "HOL-Library.Word" "HOL-Library.Multiset"
begin

section \<open>Data model\<close>

text \<open>
  \<^verbatim>\<open>time.Time\<close> is a struct of a wall-clock word, a monotonic/extended word and a
  pointer to a location. The pointer is modelled by the name of the location it refers
  to, \<open>None\<close> for \<^verbatim>\<open>nil\<close>. The zero value of the struct has every field zero.
\<close>

record Time =
  wall :: "64 word"
  ext :: "64 word"
  loc :: "string option"

definition zeroTime :: Time where
  "zeroTime = \<lparr>wall = 0, ext = 0, loc = None\<rparr>"

text \<open>
  \<^verbatim>\<open>type Article struct { ID, Title string; Tags []string; Content string; PublishAt time.Time }\<close>.
  A slice may be \<^verbatim>\<open>nil\<close>, which differs from the empty slice: \<open>Tags\<close> is
  \<open>None\<close> for \<^verbatim>\<open>nil\<close> and \<open>Some xs\<close> otherwise.
\<close>

record Article =
  ID :: string
  Title :: string
  Tags :: "string list option"
  Content :: string
  PublishAt :: Time

text \<open>The value of \<^verbatim>\<open>var article Article\<close>.\<close>

definition zeroArticle :: Article where
  "zeroArticle = \<lparr>ID = [], Title = [], Tags = None, Content = [], PublishAt = zeroTime\<rparr>"

text \<open>
  Error values. \<open>ErrArticleNotFound\<close> is the package-level sentinel;
  \<open>errors_New msg\<close> is a value made on the spot by \<^verbatim>\<open>errors.New(msg)\<close>;
  \<open>json_error msg\<close> is an error reported by the JSON library.
\<close>

datatype error = ErrArticleNotFound | errors_New string | json_error string

fun Error :: "error \<Rightarrow> string" where
  "Error ErrArticleNotFound = ''article not found''"
| "Error (errors_New msg) = msg"
| "Error (json_error msg) = msg"

section \<open>Repository\<close>

record inMemoryRepo =
  articles :: "string \<rightharpoonup> Article"

definition newInMemoryRepo :: inMemoryRepo where
  "newInMemoryRepo = \<lparr>articles = Map.empty\<rparr>"

text \<open>
  Every method mutates the receiver in place and returns an \<^verbatim>\<open>error\<close>
  (\<open>None\<close> for \<^verbatim>\<open>nil\<close>); the model returns the result together with the
  repository after the call. The context argument is ignored by every method.
\<close>

definition inMemoryRepo_InsertArticle ::
  "inMemoryRepo \<Rightarrow> Article \<Rightarrow> error option \<times> inMemoryRepo" where
  "inMemoryRepo_InsertArticle repo article =
     (None, repo\<lparr>articles := (articles repo)(ID article \<mapsto> article)\<rparr>)"

definition inMemoryRepo_UpdateArticle ::
  "inMemoryRepo \<Rightarrow> Article \<Rightarrow> error option \<times> inMemoryRepo" where
  "inMemoryRepo_UpdateArticle repo article =
     (case articles repo (ID article) of
        None \<Rightarrow> (Some ErrArticleNotFound, repo)
      | Some _ \<Rightarrow> (None, repo\<lparr>articles := (articles repo)(ID article \<mapsto> article)\<rparr>))"

definition inMemoryRepo_DeleteArticle ::
  "inMemoryRepo \<Rightarrow> string \<Rightarrow> error option \<times> inMemoryRepo" where
  "inMemoryRepo_DeleteArticle repo id' =
     (None, repo\<lparr>articles := (articles repo)(id' := None)\<rparr>)"

text \<open>
  \<^verbatim>\<open>ArticleByID\<close> returns a pointer and an error: \<^verbatim>\<open>(nil, ErrArticleNotFound)\<close>
  or the address of a copy of the stored article and \<^verbatim>\<open>nil\<close>.
\<close>

definition inMemoryRepo_ArticleByID ::
  "inMemoryRepo \<Rightarrow> string \<Rightarrow> (Article option \<times> error option) \<times> inMemoryRepo" where
  "inMemoryRepo_ArticleByID repo id' =
     (case articles repo id' of
        None \<Rightarrow> ((None, Some ErrArticleNotFound), repo)
      | Some article \<Rightarrow> ((Some article, None), repo))"

text \<open>
  \<^verbatim>\<open>for _, article := range repo.articles\<close> visits every key of the map once, in an
  order the language leaves open. The order is the list \<open>ks\<close>; \<open>rangeOrder\<close> says
  that a list is an order the statement can take on a map.
\<close>

definition rangeOrder :: "('k \<rightharpoonup> 'v) \<Rightarrow> 'k list \<Rightarrow> bool" where
  "rangeOrder m ks \<longleftrightarrow> distinct ks \<and> set ks = dom m"

fun range_append :: "(string \<rightharpoonup> Article) \<Rightarrow> string list \<Rightarrow> Article list \<Rightarrow> Article list" where
  "range_append m [] acc = acc"
| "range_append m (k # ks) acc =
     (case m k of
        Some article \<Rightarrow> range_append m ks (acc @ [article])
      | None \<Rightarrow> range_append m ks acc)"

definition inMemoryRepo_AllArticles ::
  "string list \<Rightarrow> inMemoryRepo \<Rightarrow> (Article list \<times> error option) \<times> inMemoryRepo" where
  "inMemoryRepo_AllArticles ks repo = ((range_append (articles repo) ks [], None), repo)"

text \<open>
  The interface \<^verbatim>\<open>ArticlesRepo\<close>: any implementation, over its own state \<open>'s\<close>.
\<close>

record 's ArticlesRepo =
  repo_InsertArticle :: "'s \<Rightarrow> Article \<Rightarrow> error option \<times> 's"
  repo_UpdateArticle :: "'s \<Rightarrow> Article \<Rightarrow> error option \<times> 's"
  repo_DeleteArticle :: "'s \<Rightarrow> string \<Rightarrow> error option \<times> 's"
  repo_ArticleByID :: "'s \<Rightarrow> string \<Rightarrow> (Article option \<times> error option) \<times> 's"
  repo_AllArticles :: "'s \<Rightarrow> (Article list \<times> error option) \<times> 's"

text \<open>
  The in-memory repository as an \<^verbatim>\<open>ArticlesRepo\<close>. \<open>ord\<close> gives the order in which
  the runtime ranges over the map.
\<close>

definition inMemoryRepo_impl :: "(inMemoryRepo \<Rightarrow> string list) \<Rightarrow> inMemoryRepo ArticlesRepo" where
  "inMemoryRepo_impl ord =
     \<lparr>repo_InsertArticle = inMemoryRepo_InsertArticle,
      repo_UpdateArticle = inMemoryRepo_UpdateArticle,
      repo_DeleteArticle = inMemoryRepo_DeleteArticle,
      repo_ArticleByID = inMemoryRepo_ArticleByID,
      repo_AllArticles = (\<lambda>repo. inMemoryRepo_AllArticles (ord repo) repo)\<rparr>"

text \<open>
  Observation of the calls that reach a repository: \<open>tracedRepo r\<close> behaves as \<open>r\<close>
  and appends every call it receives to a log kept beside the state of \<open>r\<close>.
\<close>

datatype repoCall =
  Call_InsertArticle Article
| Call_UpdateArticle Article
| Call_DeleteArticle string
| Call_ArticleByID string
| Call_AllArticles

definition logged :: "'c \<Rightarrow> 'c list \<Rightarrow> 'a \<times> 's \<Rightarrow> 'a \<times> ('s \<times> 'c list)" where
  "logged c log res = (fst res, (snd res, log @ [c]))"

definition tracedRepo :: "'s ArticlesRepo \<Rightarrow> ('s \<times> repoCall list) ArticlesRepo" where
  "tracedRepo r =
     \<lparr>repo_InsertArticle = (\<lambda>(s, log) a. logged (Call_InsertArticle a) log (repo_InsertArticle r s a)),
      repo_UpdateArticle = (\<lambda>(s, log) a. logged (Call_UpdateArticle a) log (repo_UpdateArticle r s a)),
      repo_DeleteArticle = (\<lambda>(s, log) i. logged (Call_DeleteArticle i) log (repo_DeleteArticle r s i)),
      repo_ArticleByID = (\<lambda>(s, log) i. logged (Call_ArticleByID i) log (repo_ArticleByID r s i)),
      repo_AllArticles = (\<lambda>(s, log). logged Call_AllArticles log (repo_AllArticles r s))\<rparr>"

section \<open>Service\<close>

text \<open>
  \<^verbatim>\<open>articleSvc\<close> holds an \<^verbatim>\<open>ArticlesRepo\<close>. \<^verbatim>\<open>AddArticle\<close> looks the id up
  first and inserts unless the lookup returned no error and a non-nil article.
\<close>

definition articleSvc_AddArticle :: "'s ArticlesRepo \<Rightarrow> 's \<Rightarrow> Article \<Rightarrow> error option \<times> 's" where
  "articleSvc_AddArticle repo s article =
     (case repo_ArticleByID repo s (ID article) of
        ((a, err), s') \<Rightarrow>
          if err = None \<and> a \<noteq> None
          then (Some (errors_New ''article already exists''), s')
          else repo_InsertArticle repo s' article)"

definition articleSvc_UpdateArticle :: "'s ArticlesRepo \<Rightarrow> 's \<Rightarrow> Article \<Rightarrow> error option \<times> 's" where
  "articleSvc_UpdateArticle repo s article = repo_UpdateArticle repo s article"

definition articleSvc_Article ::
  "'s ArticlesRepo \<Rightarrow> 's \<Rightarrow> string \<Rightarrow> (Article option \<times> error option) \<times> 's" where
  "articleSvc_Article repo s id' = repo_ArticleByID repo s id'"

definition articleSvc_DeleteArticle :: "'s ArticlesRepo \<Rightarrow> 's \<Rightarrow> string \<Rightarrow> error option \<times> 's" where
  "articleSvc_DeleteArticle repo s id' = repo_DeleteArticle repo s id'"

definition articleSvc_Articles ::
  "'s ArticlesRepo \<Rightarrow> 's \<Rightarrow> (Article list \<times> error option) \<times> 's" where
  "articleSvc_Articles repo s = repo_AllArticles repo s"

text \<open>
  The interface \<^verbatim>\<open>ArticlesService\<close>, \<^verbatim>\<open>articleSvc\<close> as an implementation of it, and
  the observation of the calls that reach a service.
\<close>

record 's ArticlesService =
  svc_AddArticle :: "'s \<Rightarrow> Article \<Rightarrow> error option \<times> 's"
  svc_UpdateArticle :: "'s \<Rightarrow> Article \<Rightarrow> error option \<times> 's"
  svc_Article :: "'s \<Rightarrow> string \<Rightarrow> (Article option \<times> error option) \<times> 's"
  svc_Articles :: "'s \<Rightarrow> (Article list \<times> error option) \<times> 's"
  svc_DeleteArticle :: "'s \<Rightarrow> string \<Rightarrow> error option \<times> 's"

definition articleSvc :: "'s ArticlesRepo \<Rightarrow> 's ArticlesService" where
  "articleSvc repo =
     \<lparr>svc_AddArticle = articleSvc_AddArticle repo,
      svc_UpdateArticle = articleSvc_UpdateArticle repo,
      svc_Article = articleSvc_Article repo,
      svc_Articles = articleSvc_Articles repo,
      svc_DeleteArticle = articleSvc_DeleteArticle repo\<rparr>"

datatype svcCall =
  Svc_AddArticle Article
| Svc_UpdateArticle Article
| Svc_Article string
| Svc_Articles
| Svc_DeleteArticle string

definition tracedSvc :: "'s ArticlesService \<Rightarrow> ('s \<times> svcCall list) ArticlesService" where
  "tracedSvc svc =
     \<lparr>svc_AddArticle = (\<lambda>(s, log) a. logged (Svc_AddArticle a) log (svc_AddArticle svc s a)),
      svc_UpdateArticle = (\<lambda>(s, log) a. logged (Svc_UpdateArticle a) log (svc_UpdateArticle svc s a)),
      svc_Article = (\<lambda>(s, log) i. logged (Svc_Article i) log (svc_Article svc s i)),
      svc_Articles = (\<lambda>(s, log). logged Svc_Articles log (svc_Articles svc s)),
      svc_DeleteArticle = (\<lambda>(s, log) i. logged (Svc_DeleteArticle i) log (svc_DeleteArticle svc s i))\<rparr>"

section \<open>Sequences of repository operations\<close>

text \<open>Inserting a list of articles one after the other; \<^verbatim>\<open>InsertArticle\<close> never fails.\<close>

fun insertAll :: "inMemoryRepo \<Rightarrow> Article list \<Rightarrow> inMemoryRepo" where
  "insertAll repo [] = repo"
| "insertAll repo (a # as) = insertAll (snd (inMemoryRepo_InsertArticle repo a)) as"

text \<open>
  The three mutating methods as operations, and the repository a sequence of them
  leaves behind. A failed update leaves the repository as it was.
\<close>

datatype repoOp = Insert Article | Update Article | Delete string

fun applyOp :: "inMemoryRepo \<Rightarrow> repoOp \<Rightarrow> inMemoryRepo" where
  "applyOp repo (Insert a) = snd (inMemoryRepo_InsertArticle repo a)"
| "applyOp repo (Update a) = snd (inMemoryRepo_UpdateArticle repo a)"
| "applyOp repo (Delete i) = snd (inMemoryRepo_DeleteArticle repo i)"

fun run :: "inMemoryRepo \<Rightarrow> repoOp list \<Rightarrow> inMemoryRepo" where
  "run repo [] = repo"
| "run repo (op # ops) = run (applyOp repo op) ops"

text \<open>Every stored article is stored under its own id.\<close>

definition keyed :: "inMemoryRepo \<Rightarrow> bool" where
  "keyed repo \<longleftrightarrow> (\<forall>k a. articles repo k = Some a \<longrightarrow> ID a = k)"

section \<open>Transport\<close>

definition StatusOK :: nat where "StatusOK = 200"
definition StatusBadRequest :: nat where "StatusBadRequest = 400"
definition StatusInternalServerError :: nat where "StatusInternalServerError = 500"

text \<open>
  A handler acts on its \<^verbatim>\<open>http.ResponseWriter\<close> by calling \<^verbatim>\<open>WriteHeader\<close> and, through
  \<^verbatim>\<open>io.WriteString\<close>, \<^verbatim>\<open>Write\<close>. The writer is the list of the calls made on it so far.
  Calls to \<^verbatim>\<open>log.Println\<close> are left out.
\<close>

datatype wcall = WriteHeader nat | WriteString string

text \<open>
  What \<^verbatim>\<open>net/http\<close> sends for a list of calls: the status is the code of the first
  \<^verbatim>\<open>WriteHeader\<close>, or 200 when the first call is a write or the handler returns without
  any call; later \<^verbatim>\<open>WriteHeader\<close> calls are ignored; the body is everything written.
\<close>

fun response_status :: "wcall list \<Rightarrow> nat" where
  "response_status [] = StatusOK"
| "response_status (WriteHeader code # _) = code"
| "response_status (WriteString _ # _) = StatusOK"

fun response_body :: "wcall list \<Rightarrow> string" where
  "response_body [] = []"
| "response_body (WriteHeader _ # w) = response_body w"
| "response_body (WriteString s # w) = s @ response_body w"

text \<open>
  Of a request the handlers read the body and the route variables (\<^verbatim>\<open>mux.Vars\<close>).
\<close>

record Request =
  Body :: string
  Vars :: "string \<rightharpoonup> string"

text \<open>
  \<^verbatim>\<open>json.NewDecoder(r.Body).Decode(&article)\<close> belongs to the standard library and is a
  parameter of the handlers: from the body and the value of the variable before the call
  it gives the value of the variable after the call and the error returned.
\<close>

type_synonym Decoder = "string \<Rightarrow> Article \<Rightarrow> Article \<times> error option"

text \<open>
  A decoder that agrees with \<^verbatim>\<open>encoding/json\<close> on three bodies. A well-formed object
  with string fields is stored and no error is returned. On a field of the wrong JSON
  type the library skips that field, stores the others and returns the type error. On the
  empty body it stores nothing and returns \<^verbatim>\<open>io.EOF\<close>. Other bodies are not used below.
\<close>

definition sampleDecode :: Decoder where
  \<open>sampleDecode body v =
     (if body = ''{"id":"b7","title":"T"}'' then (v\<lparr>ID := ''b7'', Title := ''T''\<rparr>, None)
      else if body = ''{"id":"a1","title":5}'' then
        (v\<lparr>ID := ''a1''\<rparr>,
         Some (json_error
           ''json: cannot unmarshal number into Go struct field Article.title of type string''))
      else (v, Some (json_error ''EOF'')))\<close>

text \<open>
  \<^verbatim>\<open>addArticle\<close>: a failed decode writes 400 and \<^verbatim>\<open>bad request\<close>; there is no return
  in that branch, so the call of the service follows in either case.
\<close>

definition addArticle ::
  "Decoder \<Rightarrow> 's ArticlesService \<Rightarrow> wcall list \<Rightarrow> Request \<Rightarrow> 's \<Rightarrow> wcall list \<times> 's" where
  "addArticle Decode svc w r s =
     (case Decode (Body r) zeroArticle of
        (article, derr) \<Rightarrow>
          let w1 = (case derr of
                      Some e \<Rightarrow> w @ [WriteHeader StatusBadRequest, WriteString ''bad request'']
                    | None \<Rightarrow> w)
          in (case svc_AddArticle svc s article of
                (Some err, s') \<Rightarrow>
                  (w1 @ [WriteHeader StatusInternalServerError, WriteString (Error err)], s')
              | (None, s') \<Rightarrow> (w1 @ [WriteHeader StatusOK, WriteString ''ok''], s')))"

text \<open>
  \<^verbatim>\<open>updateArticle\<close>: as above, then \<^verbatim>\<open>article.ID = mux.Vars(r)["id"]\<close>; reading a key
  that a Go map does not hold gives the empty string.
\<close>

definition updateArticle ::
  "Decoder \<Rightarrow> 's ArticlesService \<Rightarrow> wcall list \<Rightarrow> Request \<Rightarrow> 's \<Rightarrow> wcall list \<times> 's" where
  "updateArticle Decode svc w r s =
     (case Decode (Body r) zeroArticle of
        (article, derr) \<Rightarrow>
          let w1 = (case derr of
                      Some e \<Rightarrow> w @ [WriteHeader StatusBadRequest, WriteString ''bad request'']
                    | None \<Rightarrow> w);
              articleID = (case Vars r ''id'' of Some v \<Rightarrow> v | None \<Rightarrow> [])
          in (case svc_UpdateArticle svc s (article\<lparr>ID := articleID\<rparr>) of
                (Some err, s') \<Rightarrow>
                  (w1 @ [WriteHeader StatusInternalServerError, WriteString (Error err)], s')
              | (None, s') \<Rightarrow> (w1 @ [WriteHeader StatusOK, WriteString ''ok''], s')))"

text \<open>\<^verbatim>\<open>articleByID\<close> has an empty body.\<close>

definition articleByID ::
  "'s ArticlesService \<Rightarrow> wcall list \<Rightarrow> Request \<Rightarrow> 's \<Rightarrow> wcall list \<times> 's" where
  "articleByID svc w r s = (w, s)"

section \<open>Auxiliary facts\<close>

lemma impl_simps [simp]:
  "repo_InsertArticle (inMemoryRepo_impl ord) = inMemoryRepo_InsertArticle"
  "repo_UpdateArticle (inMemoryRepo_impl ord) = inMemoryRepo_UpdateArticle"
  "repo_DeleteArticle (inMemoryRepo_impl ord) = inMemoryRepo_DeleteArticle"
  "repo_ArticleByID (inMemoryRepo_impl ord) = inMemoryRepo_ArticleByID"
  "repo_AllArticles (inMemoryRepo_impl ord) repo = inMemoryRepo_AllArticles (ord repo) repo"
  by (simp_all add: inMemoryRepo_impl_def)

lemma tracedRepo_simps [simp]:
  "repo_InsertArticle (tracedRepo r) (s, log) a =
     logged (Call_InsertArticle a) log (repo_InsertArticle r s a)"
  "repo_ArticleByID (tracedRepo r) (s, log) i =
     logged (Call_ArticleByID i) log (repo_ArticleByID r s i)"
  by (simp_all add: tracedRepo_def)

lemma articleSvc_simps [simp]:
  "svc_AddArticle (articleSvc repo) = articleSvc_AddArticle repo"
  "svc_UpdateArticle (articleSvc repo) = articleSvc_UpdateArticle repo"
  "svc_Article (articleSvc repo) = articleSvc_Article repo"
  by (simp_all add: articleSvc_def)

lemma tracedSvc_simps [simp]:
  "svc_AddArticle (tracedSvc svc) (s, log) a =
     logged (Svc_AddArticle a) log (svc_AddArticle svc s a)"
  "svc_UpdateArticle (tracedSvc svc) (s, log) a =
     logged (Svc_UpdateArticle a) log (svc_UpdateArticle svc s a)"
  by (simp_all add: tracedSvc_def)

lemmas repo_defs =
  inMemoryRepo_InsertArticle_def inMemoryRepo_UpdateArticle_def inMemoryRepo_DeleteArticle_def
  inMemoryRepo_ArticleByID_def inMemoryRepo_AllArticles_def newInMemoryRepo_def

lemmas status_defs = StatusOK_def StatusBadRequest_def StatusInternalServerError_def

text \<open>Over an order that stays inside the map, the loop collects the entries in that order.\<close>

lemma range_append_map:
  "set ks \<subseteq> dom m \<Longrightarrow> range_append m ks acc = acc @ map (\<lambda>k. the (m k)) ks"
  by (induction ks arbitrary: acc) (auto split: option.splits)

lemma set_AllArticles:
  assumes ro: "rangeOrder (articles repo) ks"
  shows "set (fst (fst (inMemoryRepo_AllArticles ks repo))) = ran (articles repo)"
proof -
  have sub: "set ks \<subseteq> dom (articles repo)"
    using ro by (simp add: rangeOrder_def)
  have "set (map (\<lambda>k. the (articles repo k)) ks) = ran (articles repo)"
    using ro by (force simp: rangeOrder_def ran_def dom_def image_iff)
  then show ?thesis
    by (simp add: inMemoryRepo_AllArticles_def range_append_map [OF sub])
qed

text \<open>A map with finitely many keys has an order to range over.\<close>

lemma rangeOrder_exists: "finite (dom m) \<Longrightarrow> \<exists>ks. rangeOrder m ks"
  unfolding rangeOrder_def using finite_distinct_list [of "dom m"] by blast

text \<open>The map after a run of inserts with distinct, fresh ids.\<close>

lemma articles_insertAll:
  "distinct (map ID as) \<Longrightarrow> \<forall>a \<in> set as. articles repo (ID a) = None \<Longrightarrow>
   articles (insertAll repo as) =
     (\<lambda>k. case find (\<lambda>a. ID a = k) as of Some a \<Rightarrow> Some a | None \<Rightarrow> articles repo k)"
proof (induction as arbitrary: repo)
  case Nil
  then show ?case by simp
next
  case (Cons a as)
  let ?r = "snd (inMemoryRepo_InsertArticle repo a)"
  have r: "articles ?r = (articles repo)(ID a \<mapsto> a)"
    by (simp add: inMemoryRepo_InsertArticle_def)
  have "ID a \<notin> ID ` set as" using Cons.prems by simp
  then have fresh: "\<forall>b \<in> set as. ID b \<noteq> ID a" by (metis imageI)
  have "\<forall>b \<in> set as. articles ?r (ID b) = None"
    using Cons.prems fresh by (simp add: r)
  with \<open>distinct (map ID (a # as))\<close> have "articles (insertAll ?r as) =
      (\<lambda>k. case find (\<lambda>a. ID a = k) as of Some a \<Rightarrow> Some a | None \<Rightarrow> articles ?r k)"
    by (intro Cons.IH) simp_all
  moreover have "find (\<lambda>b. ID b = ID a) as = None"
    using fresh by (simp add: find_None_iff)
  ultimately show ?case
    by (auto simp: r fun_eq_iff split: option.splits)
qed

lemma find_ID:
  "distinct (map ID as) \<Longrightarrow> a \<in> set as \<Longrightarrow> find (\<lambda>b. ID b = ID a) as = Some a"
  by (induction as) auto

lemma lookup_insertAll_empty:
  assumes "distinct (map ID as)"
  shows "a \<in> set as \<Longrightarrow> articles (insertAll newInMemoryRepo as) (ID a) = Some a"
    and "dom (articles (insertAll newInMemoryRepo as)) = ID ` set as"
proof -
  have "\<forall>a \<in> set as. articles newInMemoryRepo (ID a) = None"
    by (simp add: newInMemoryRepo_def)
  from articles_insertAll [OF assms this]
  have eq: "articles (insertAll newInMemoryRepo as) =
      (\<lambda>k. case find (\<lambda>a. ID a = k) as of Some a \<Rightarrow> Some a | None \<Rightarrow> None)"
    by (auto simp: newInMemoryRepo_def fun_eq_iff split: option.splits)
  show "a \<in> set as \<Longrightarrow> articles (insertAll newInMemoryRepo as) (ID a) = Some a"
    by (simp add: eq find_ID [OF assms])
  show "dom (articles (insertAll newInMemoryRepo as)) = ID ` set as"
    by (auto simp: eq dom_def find_None_iff image_iff split: option.splits)
qed

lemma mset_AllArticles_insertAll:
  assumes d: "distinct (map ID as)"
    and ro: "rangeOrder (articles (insertAll newInMemoryRepo as)) ks"
  shows "mset (fst (fst (inMemoryRepo_AllArticles ks (insertAll newInMemoryRepo as)))) = mset as"
proof -
  let ?m = "articles (insertAll newInMemoryRepo as)"
  have sub: "set ks \<subseteq> dom ?m" using ro by (simp add: rangeOrder_def)
  have "set ks = set (map ID as)"
    using ro by (simp add: rangeOrder_def lookup_insertAll_empty(2) [OF d])
  moreover have "distinct ks" using ro by (simp add: rangeOrder_def)
  ultimately have ks: "mset ks = mset (map ID as)"
    using d by (metis set_eq_iff_mset_eq_distinct)
  have "mset (map (\<lambda>k. the (?m k)) ks) = image_mset (\<lambda>k. the (?m k)) (mset ks)"
    by simp
  also have "\<dots> = mset (map (\<lambda>a. the (?m (ID a))) as)"
    by (simp add: ks multiset.map_comp comp_def)
  also have "map (\<lambda>a. the (?m (ID a))) as = map (\<lambda>a. a) as"
    by (intro map_cong) (simp_all add: lookup_insertAll_empty(1) [OF d])
  finally show ?thesis
    by (simp add: inMemoryRepo_AllArticles_def range_append_map [OF sub])
qed

lemma insertAll_order:
  assumes d: "distinct (map ID as)" and p: "mset bs = mset as"
  shows "insertAll newInMemoryRepo bs = insertAll newInMemoryRepo as"
proof -
  have "mset (map ID bs) = mset (map ID as)" using p by simp
  then have db: "distinct (map ID bs)"
    using d by (metis mset_eq_imp_distinct_iff)
  have s: "set bs = set as" using p by (rule mset_eq_setD)
  have "articles (insertAll newInMemoryRepo bs) k = articles (insertAll newInMemoryRepo as) k" for k
  proof (cases "k \<in> ID ` set as")
    case True
    then obtain a where a: "a \<in> set as" "k = ID a" by auto
    then show ?thesis
      using lookup_insertAll_empty(1) [OF d, of a] lookup_insertAll_empty(1) [OF db, of a] s
      by simp
  next
    case False
    then have "k \<notin> dom (articles (insertAll newInMemoryRepo as))"
      and "k \<notin> dom (articles (insertAll newInMemoryRepo bs))"
      using lookup_insertAll_empty(2) [OF d] lookup_insertAll_empty(2) [OF db] s by auto
    then show ?thesis by (simp add: dom_def)
  qed
  then have "articles (insertAll newInMemoryRepo bs) = articles (insertAll newInMemoryRepo as)"
    by (rule ext)
  then show ?thesis by simp
qed

text \<open>Each operation keeps every article under its own id and the set of keys finite.\<close>

lemma keyed_applyOp: "keyed repo \<Longrightarrow> keyed (applyOp repo op)"
  by (cases op) (auto simp: keyed_def inMemoryRepo_InsertArticle_def inMemoryRepo_UpdateArticle_def
      inMemoryRepo_DeleteArticle_def split: option.splits if_splits)

lemma finite_applyOp:
  "finite (dom (articles repo)) \<Longrightarrow> finite (dom (articles (applyOp repo op)))"
  by (cases op) (auto simp: inMemoryRepo_InsertArticle_def inMemoryRepo_UpdateArticle_def
      inMemoryRepo_DeleteArticle_def split: option.splits)

lemma keyed_run: "keyed repo \<Longrightarrow> keyed (run repo ops)"
  by (induction ops arbitrary: repo) (auto intro: keyed_applyOp)

lemma finite_run: "finite (dom (articles repo)) \<Longrightarrow> finite (dom (articles (run repo ops)))"
  by (induction ops arbitrary: repo) (auto intro: finite_applyOp)

lemma keyed_AllArticles_IDs:
  assumes k: "keyed repo" and ro: "rangeOrder (articles repo) ks"
  shows "map ID (fst (fst (inMemoryRepo_AllArticles ks repo))) = ks"
proof -
  have sub: "set ks \<subseteq> dom (articles repo)" using ro by (simp add: rangeOrder_def)
  have "map (\<lambda>k. ID (the (articles repo k))) ks = map (\<lambda>k. k) ks"
    using sub k by (intro map_cong) (auto simp: keyed_def)
  then show ?thesis
    by (simp add: inMemoryRepo_AllArticles_def range_append_map [OF sub] comp_def)
qed

section \<open>Service: adding an article whose id is taken\<close>

text \<open>
  C1. For every repository and every article whose id is already present,
  \<^verbatim>\<open>AddArticle\<close> of the service returns the error \<^verbatim>\<open>article already exists\<close>; the only
  call that reaches the repository is the lookup by id, so \<^verbatim>\<open>InsertArticle\<close> is not
  called; and the repository, hence the article stored under that id, is as before.
\<close>

theorem AddArticle_existing:
  assumes "articles repo (ID article) = Some stored"
  shows "articleSvc_AddArticle (tracedRepo (inMemoryRepo_impl ord)) (repo, log) article =
           (Some (errors_New ''article already exists''),
            (repo, log @ [Call_ArticleByID (ID article)])) \<and>
         articleSvc_AddArticle (inMemoryRepo_impl ord) repo article =
           (Some (errors_New ''article already exists''), repo) \<and>
         articles (snd (articleSvc_AddArticle (inMemoryRepo_impl ord) repo article)) (ID article) =
           Some stored"
  using assms
  by (simp add: articleSvc_AddArticle_def inMemoryRepo_ArticleByID_def logged_def)

theorem AddArticle_existing_witness:
  "articleSvc_AddArticle (tracedRepo (inMemoryRepo_impl (\<lambda>_. [''a1''])))
      (\<lparr>articles = [''a1'' \<mapsto> zeroArticle\<lparr>ID := ''a1'', Title := ''T''\<rparr>]\<rparr>, [])
      (zeroArticle\<lparr>ID := ''a1'', Title := ''U''\<rparr>) =
     (Some (errors_New ''article already exists''),
      (\<lparr>articles = [''a1'' \<mapsto> zeroArticle\<lparr>ID := ''a1'', Title := ''T''\<rparr>]\<rparr>,
       [Call_ArticleByID ''a1'']))"
  using AddArticle_existing
    [of "\<lparr>articles = [''a1'' \<mapsto> zeroArticle\<lparr>ID := ''a1'', Title := ''T''\<rparr>]\<rparr>"
        "zeroArticle\<lparr>ID := ''a1'', Title := ''U''\<rparr>"
        "zeroArticle\<lparr>ID := ''a1'', Title := ''T''\<rparr>" "\<lambda>_. [''a1'']" "[]"]
  by (simp add: zeroArticle_def)

section \<open>Repository: update\<close>

text \<open>
  C2. For every repository and every article whose id is absent, \<^verbatim>\<open>UpdateArticle\<close>
  returns \<open>ErrArticleNotFound\<close> and the repository after the call is the one before it;
  when the id is present the call returns no error and the entry stored under the id is
  the given article, every other entry being as before.
\<close>

theorem UpdateArticle_absent_or_overwrite:
  "(articles repo (ID article) = None \<longrightarrow>
      inMemoryRepo_UpdateArticle repo article = (Some ErrArticleNotFound, repo)) \<and>
   (articles repo (ID article) \<noteq> None \<longrightarrow>
      fst (inMemoryRepo_UpdateArticle repo article) = None \<and>
      articles (snd (inMemoryRepo_UpdateArticle repo article)) (ID article) = Some article \<and>
      (\<forall>k. k \<noteq> ID article \<longrightarrow>
         articles (snd (inMemoryRepo_UpdateArticle repo article)) k = articles repo k))"
  by (auto simp: inMemoryRepo_UpdateArticle_def split: option.splits)

theorem UpdateArticle_absent_or_overwrite_witness:
  "inMemoryRepo_UpdateArticle newInMemoryRepo (zeroArticle\<lparr>ID := ''a1''\<rparr>) =
     (Some ErrArticleNotFound, newInMemoryRepo) \<and>
   fst (inMemoryRepo_UpdateArticle
          \<lparr>articles = [''a1'' \<mapsto> zeroArticle\<lparr>ID := ''a1'', Title := ''T''\<rparr>]\<rparr>
          (zeroArticle\<lparr>ID := ''a1'', Title := ''U''\<rparr>)) = None \<and>
   articles (snd (inMemoryRepo_UpdateArticle
          \<lparr>articles = [''a1'' \<mapsto> zeroArticle\<lparr>ID := ''a1'', Title := ''T''\<rparr>]\<rparr>
          (zeroArticle\<lparr>ID := ''a1'', Title := ''U''\<rparr>))) ''a1'' =
     Some (zeroArticle\<lparr>ID := ''a1'', Title := ''U''\<rparr>)"
  using UpdateArticle_absent_or_overwrite [of newInMemoryRepo "zeroArticle\<lparr>ID := ''a1''\<rparr>"]
    UpdateArticle_absent_or_overwrite
      [of "\<lparr>articles = [''a1'' \<mapsto> zeroArticle\<lparr>ID := ''a1'', Title := ''T''\<rparr>]\<rparr>"
          "zeroArticle\<lparr>ID := ''a1'', Title := ''U''\<rparr>"]
  by (simp add: newInMemoryRepo_def zeroArticle_def)

section \<open>Service: adding an article with a fresh id, then fetching it\<close>

text \<open>
  C3. For every repository and every article whose id is not yet present, \<^verbatim>\<open>AddArticle\<close>
  of the service returns no error, and fetching by that id afterwards, through the service
  or the repository, returns no error and an article equal to the inserted one, that is
  equal in id, title, tags (as a sequence), content and publish time.
\<close>

theorem AddArticle_fresh_then_fetch:
  assumes "articles repo (ID article) = None"
  shows "fst (articleSvc_AddArticle (inMemoryRepo_impl ord) repo article) = None \<and>
         fst (articleSvc_Article (inMemoryRepo_impl ord)
                (snd (articleSvc_AddArticle (inMemoryRepo_impl ord) repo article)) (ID article))
           = (Some article, None) \<and>
         fst (inMemoryRepo_ArticleByID
                (snd (articleSvc_AddArticle (inMemoryRepo_impl ord) repo article)) (ID article))
           = (Some article, None)"
  using assms
  by (simp add: articleSvc_AddArticle_def articleSvc_Article_def inMemoryRepo_ArticleByID_def
      inMemoryRepo_InsertArticle_def)

theorem AddArticle_fresh_then_fetch_witness:
  "fst (articleSvc_AddArticle (inMemoryRepo_impl (\<lambda>_. [])) newInMemoryRepo
          \<lparr>ID = ''a1'', Title = ''T'', Tags = Some [''x'', ''y'', ''x''], Content = ''C'',
           PublishAt = zeroTime\<rparr>) = None \<and>
   fst (articleSvc_Article (inMemoryRepo_impl (\<lambda>_. []))
          (snd (articleSvc_AddArticle (inMemoryRepo_impl (\<lambda>_. [])) newInMemoryRepo
             \<lparr>ID = ''a1'', Title = ''T'', Tags = Some [''x'', ''y'', ''x''], Content = ''C'',
              PublishAt = zeroTime\<rparr>)) ''a1'') =
     (Some \<lparr>ID = ''a1'', Title = ''T'', Tags = Some [''x'', ''y'', ''x''], Content = ''C'',
            PublishAt = zeroTime\<rparr>, None)"
  using AddArticle_fresh_then_fetch
    [of newInMemoryRepo
        "\<lparr>ID = ''a1'', Title = ''T'', Tags = Some [''x'', ''y'', ''x''], Content = ''C'',
          PublishAt = zeroTime\<rparr>" "\<lambda>_. []"]
  by (simp add: newInMemoryRepo_def)

section \<open>Service: when adding fails\<close>

text \<open>
  C10. With the in-memory repository, \<^verbatim>\<open>AddArticle\<close> of the service returns an error
  exactly when an article is stored under the given id. It never returns
  \<open>ErrArticleNotFound\<close>: when the id is absent the lookup does return that error, and the
  service then behaves as \<^verbatim>\<open>InsertArticle\<close>, which never returns an error.
\<close>

theorem AddArticle_error_iff_present:
  "(fst (articleSvc_AddArticle (inMemoryRepo_impl ord) repo article) \<noteq> None
      \<longleftrightarrow> articles repo (ID article) \<noteq> None) \<and>
   fst (articleSvc_AddArticle (inMemoryRepo_impl ord) repo article) \<noteq> Some ErrArticleNotFound \<and>
   (articles repo (ID article) = None \<longrightarrow>
      snd (fst (inMemoryRepo_ArticleByID repo (ID article))) = Some ErrArticleNotFound \<and>
      articleSvc_AddArticle (inMemoryRepo_impl ord) repo article =
        inMemoryRepo_InsertArticle repo article) \<and>
   fst (inMemoryRepo_InsertArticle repo' article') = None"
  by (auto simp: articleSvc_AddArticle_def inMemoryRepo_ArticleByID_def
      inMemoryRepo_InsertArticle_def split: option.splits)

theorem AddArticle_error_iff_present_witness:
  "snd (fst (inMemoryRepo_ArticleByID newInMemoryRepo ''a1'')) = Some ErrArticleNotFound \<and>
   fst (articleSvc_AddArticle (inMemoryRepo_impl (\<lambda>_. [])) newInMemoryRepo
          (zeroArticle\<lparr>ID := ''a1''\<rparr>)) = None \<and>
   fst (articleSvc_AddArticle (inMemoryRepo_impl (\<lambda>_. []))
          \<lparr>articles = [''a1'' \<mapsto> zeroArticle\<lparr>ID := ''a1''\<rparr>]\<rparr>
          (zeroArticle\<lparr>ID := ''a1''\<rparr>)) \<noteq> None"
  using AddArticle_error_iff_present
      [of "\<lambda>_. []" newInMemoryRepo "zeroArticle\<lparr>ID := ''a1''\<rparr>"]
    AddArticle_error_iff_present
      [of "\<lambda>_. []" "\<lparr>articles = [''a1'' \<mapsto> zeroArticle\<lparr>ID := ''a1''\<rparr>]\<rparr>"
          "zeroArticle\<lparr>ID := ''a1''\<rparr>"]
  by (simp add: newInMemoryRepo_def zeroArticle_def)

section \<open>Repository: delete\<close>

text \<open>
  C6. For every repository and every id, \<^verbatim>\<open>DeleteArticle\<close> returns no error. When the
  id is absent the repository after the call is the one before it. In either case no
  entry is stored under the id afterwards and every other entry is as before, so a
  following lookup by that id returns \<open>ErrArticleNotFound\<close>, and a following
  \<^verbatim>\<open>AllArticles\<close>, in whatever order it ranges over the map, does not visit the id and
  returns the articles stored under the other ids; where every article is stored under its
  own id, no returned article has the deleted id.
\<close>

theorem DeleteArticle_removes:
  "fst (inMemoryRepo_DeleteArticle repo id') = None \<and>
   (articles repo id' = None \<longrightarrow> inMemoryRepo_DeleteArticle repo id' = (None, repo)) \<and>
   articles (snd (inMemoryRepo_DeleteArticle repo id')) id' = None \<and>
   (\<forall>k. k \<noteq> id' \<longrightarrow> articles (snd (inMemoryRepo_DeleteArticle repo id')) k = articles repo k) \<and>
   fst (inMemoryRepo_ArticleByID (snd (inMemoryRepo_DeleteArticle repo id')) id')
      = (None, Some ErrArticleNotFound) \<and>
   (\<forall>ks. rangeOrder (articles (snd (inMemoryRepo_DeleteArticle repo id'))) ks \<longrightarrow>
      id' \<notin> set ks \<and>
      fst (inMemoryRepo_AllArticles ks (snd (inMemoryRepo_DeleteArticle repo id')))
        = (map (\<lambda>k. the (articles repo k)) ks, None) \<and>
      set (fst (fst (inMemoryRepo_AllArticles ks (snd (inMemoryRepo_DeleteArticle repo id')))))
        = {a. \<exists>k. k \<noteq> id' \<and> articles repo k = Some a} \<and>
      (keyed repo \<longrightarrow>
         id' \<notin> ID ` set (fst (fst (inMemoryRepo_AllArticles ks
                                        (snd (inMemoryRepo_DeleteArticle repo id')))))))"
proof (intro conjI allI impI)
  let ?r = "snd (inMemoryRepo_DeleteArticle repo id')"
  have del: "articles ?r = (articles repo)(id' := None)"
    by (simp add: inMemoryRepo_DeleteArticle_def)
  show "fst (inMemoryRepo_DeleteArticle repo id') = None"
    by (simp add: inMemoryRepo_DeleteArticle_def)
  show "inMemoryRepo_DeleteArticle repo id' = (None, repo)" if "articles repo id' = None"
  proof -
    have "(articles repo)(id' := None) = articles repo"
      using that by (simp add: fun_upd_idem)
    then show ?thesis by (simp add: inMemoryRepo_DeleteArticle_def)
  qed
  show "articles ?r id' = None" by (simp add: del)
  show "articles ?r k = articles repo k" if "k \<noteq> id'" for k
    using that by (simp add: del)
  show "fst (inMemoryRepo_ArticleByID ?r id') = (None, Some ErrArticleNotFound)"
    by (simp add: inMemoryRepo_ArticleByID_def del)
  fix ks assume ro: "rangeOrder (articles ?r) ks"
  then have ks: "set ks = dom (articles repo) - {id'}"
    by (simp add: rangeOrder_def del)
  show "id' \<notin> set ks" by (simp add: ks)
  have sub: "set ks \<subseteq> dom (articles ?r)" using ro by (simp add: rangeOrder_def)
  have "map (\<lambda>k. the (articles ?r k)) ks = map (\<lambda>k. the (articles repo k)) ks"
    using ks by (intro map_cong) (auto simp: del)
  then show "fst (inMemoryRepo_AllArticles ks ?r) = (map (\<lambda>k. the (articles repo k)) ks, None)"
    by (simp add: inMemoryRepo_AllArticles_def range_append_map [OF sub])
  have "ran (articles ?r) = {a. \<exists>k. k \<noteq> id' \<and> articles repo k = Some a}"
    by (auto simp: del ran_def)
  then show all: "set (fst (fst (inMemoryRepo_AllArticles ks ?r))) =
      {a. \<exists>k. k \<noteq> id' \<and> articles repo k = Some a}"
    using set_AllArticles [OF ro] by simp
  show "id' \<notin> ID ` set (fst (fst (inMemoryRepo_AllArticles ks ?r)))" if "keyed repo"
    using that unfolding all by (auto simp: keyed_def)
qed

theorem DeleteArticle_removes_witness:
  "inMemoryRepo_DeleteArticle newInMemoryRepo ''a1'' = (None, newInMemoryRepo) \<and>
   rangeOrder (articles (snd (inMemoryRepo_DeleteArticle
       \<lparr>articles = [''a1'' \<mapsto> zeroArticle\<lparr>ID := ''a1''\<rparr>, ''a2'' \<mapsto> zeroArticle\<lparr>ID := ''a2''\<rparr>]\<rparr>
       ''a1''))) [''a2''] \<and>
   articles (snd (inMemoryRepo_DeleteArticle
       \<lparr>articles = [''a1'' \<mapsto> zeroArticle\<lparr>ID := ''a1''\<rparr>, ''a2'' \<mapsto> zeroArticle\<lparr>ID := ''a2''\<rparr>]\<rparr>
       ''a1'')) ''a2'' = Some (zeroArticle\<lparr>ID := ''a2''\<rparr>) \<and>
   fst (inMemoryRepo_ArticleByID (snd (inMemoryRepo_DeleteArticle
       \<lparr>articles = [''a1'' \<mapsto> zeroArticle\<lparr>ID := ''a1''\<rparr>, ''a2'' \<mapsto> zeroArticle\<lparr>ID := ''a2''\<rparr>]\<rparr>
       ''a1'')) ''a1'') = (None, Some ErrArticleNotFound) \<and>
   fst (inMemoryRepo_AllArticles [''a2''] (snd (inMemoryRepo_DeleteArticle
       \<lparr>articles = [''a1'' \<mapsto> zeroArticle\<lparr>ID := ''a1''\<rparr>, ''a2'' \<mapsto> zeroArticle\<lparr>ID := ''a2''\<rparr>]\<rparr>
       ''a1''))) = ([zeroArticle\<lparr>ID := ''a2''\<rparr>], None) \<and>
   ''a1'' \<notin> ID ` set (fst (fst (inMemoryRepo_AllArticles [''a2''] (snd (inMemoryRepo_DeleteArticle
       \<lparr>articles = [''a1'' \<mapsto> zeroArticle\<lparr>ID := ''a1''\<rparr>, ''a2'' \<mapsto> zeroArticle\<lparr>ID := ''a2''\<rparr>]\<rparr>
       ''a1'')))))"
proof -
  let ?repo = "\<lparr>articles = [''a1'' \<mapsto> zeroArticle\<lparr>ID := ''a1''\<rparr>,
                              ''a2'' \<mapsto> zeroArticle\<lparr>ID := ''a2''\<rparr>]\<rparr>"
  have absent: "articles newInMemoryRepo ''a1'' = None"
    by (simp add: newInMemoryRepo_def)
  have ro: "rangeOrder (articles (snd (inMemoryRepo_DeleteArticle ?repo ''a1''))) [''a2'']"
    by (auto simp: rangeOrder_def inMemoryRepo_DeleteArticle_def)
  have k: "keyed ?repo"
    by (simp add: keyed_def)
  show ?thesis
    using DeleteArticle_removes [of newInMemoryRepo "''a1''"]
      DeleteArticle_removes [of ?repo "''a1''"] absent ro k
    by simp
qed

section \<open>Repository: listing after inserts\<close>

text \<open>
  C7. For every list of \<open>N\<close> articles with pairwise distinct ids inserted one after the
  other into the empty repository, \<^verbatim>\<open>AllArticles\<close>, in whatever order it ranges over the
  map, returns no error and exactly \<open>N\<close> articles, and the returned list is a
  rearrangement of the inserted one: each inserted article is returned once, equal to what
  was inserted. The order of insertion does not matter: inserting the same articles in
  another order leaves the same repository.
\<close>

theorem AllArticles_after_inserts:
  assumes "distinct (map ID as)"
    and "rangeOrder (articles (insertAll newInMemoryRepo as)) ks"
  shows "snd (fst (inMemoryRepo_AllArticles ks (insertAll newInMemoryRepo as))) = None \<and>
         length (fst (fst (inMemoryRepo_AllArticles ks (insertAll newInMemoryRepo as)))) = length as \<and>
         mset (fst (fst (inMemoryRepo_AllArticles ks (insertAll newInMemoryRepo as)))) = mset as \<and>
         (\<forall>bs. mset bs = mset as \<longrightarrow>
            insertAll newInMemoryRepo bs = insertAll newInMemoryRepo as)"
proof (intro conjI allI impI)
  let ?res = "fst (fst (inMemoryRepo_AllArticles ks (insertAll newInMemoryRepo as)))"
  show "snd (fst (inMemoryRepo_AllArticles ks (insertAll newInMemoryRepo as))) = None"
    by (simp add: inMemoryRepo_AllArticles_def)
  show m: "mset ?res = mset as"
    using assms by (rule mset_AllArticles_insertAll)
  show "length ?res = length as"
    using m by (rule mset_eq_length)
  show "insertAll newInMemoryRepo bs = insertAll newInMemoryRepo as" if "mset bs = mset as" for bs
    using assms(1) that by (rule insertAll_order)
qed

theorem AllArticles_after_inserts_witness:
  "distinct (map ID [zeroArticle\<lparr>ID := ''a1'', Title := ''T''\<rparr>, zeroArticle\<lparr>ID := ''a2''\<rparr>]) \<and>
   rangeOrder (articles (insertAll newInMemoryRepo
       [zeroArticle\<lparr>ID := ''a1'', Title := ''T''\<rparr>, zeroArticle\<lparr>ID := ''a2''\<rparr>]))
     [''a2'', ''a1''] \<and>
   fst (inMemoryRepo_AllArticles [''a2'', ''a1''] (insertAll newInMemoryRepo
       [zeroArticle\<lparr>ID := ''a1'', Title := ''T''\<rparr>, zeroArticle\<lparr>ID := ''a2''\<rparr>])) =
     ([zeroArticle\<lparr>ID := ''a2''\<rparr>, zeroArticle\<lparr>ID := ''a1'', Title := ''T''\<rparr>], None) \<and>
   mset (fst (fst (inMemoryRepo_AllArticles [''a2'', ''a1''] (insertAll newInMemoryRepo
       [zeroArticle\<lparr>ID := ''a1'', Title := ''T''\<rparr>, zeroArticle\<lparr>ID := ''a2''\<rparr>])))) =
     mset [zeroArticle\<lparr>ID := ''a1'', Title := ''T''\<rparr>, zeroArticle\<lparr>ID := ''a2''\<rparr>] \<and>
   insertAll newInMemoryRepo [zeroArticle\<lparr>ID := ''a2''\<rparr>, zeroArticle\<lparr>ID := ''a1'', Title := ''T''\<rparr>] =
     insertAll newInMemoryRepo [zeroArticle\<lparr>ID := ''a1'', Title := ''T''\<rparr>, zeroArticle\<lparr>ID := ''a2''\<rparr>]"
proof -
  let ?as = "[zeroArticle\<lparr>ID := ''a1'', Title := ''T''\<rparr>, zeroArticle\<lparr>ID := ''a2''\<rparr>]"
  have d: "distinct (map ID ?as)" by simp
  have ro: "rangeOrder (articles (insertAll newInMemoryRepo ?as)) [''a2'', ''a1'']"
    by (auto simp: rangeOrder_def inMemoryRepo_InsertArticle_def newInMemoryRepo_def)
  have "fst (inMemoryRepo_AllArticles [''a2'', ''a1''] (insertAll newInMemoryRepo ?as)) =
      ([zeroArticle\<lparr>ID := ''a2''\<rparr>, zeroArticle\<lparr>ID := ''a1'', Title := ''T''\<rparr>], None)"
    by (simp add: inMemoryRepo_AllArticles_def inMemoryRepo_InsertArticle_def newInMemoryRepo_def)
  moreover have "mset [zeroArticle\<lparr>ID := ''a2''\<rparr>, zeroArticle\<lparr>ID := ''a1'', Title := ''T''\<rparr>] = mset ?as"
    by simp
  then have "insertAll newInMemoryRepo [zeroArticle\<lparr>ID := ''a2''\<rparr>, zeroArticle\<lparr>ID := ''a1'', Title := ''T''\<rparr>] =
      insertAll newInMemoryRepo ?as"
    using AllArticles_after_inserts [OF d ro] by blast
  ultimately show ?thesis
    using AllArticles_after_inserts [OF d ro] d ro by simp
qed

section \<open>Repository: one article per id\<close>

text \<open>
  C9. In every repository reached from the empty one by a sequence of inserts, updates
  and deletes, every stored article is stored under its own id, and there is at most one
  stored article per id: the map has finitely many keys, so \<^verbatim>\<open>AllArticles\<close> has an order
  to range over, and in whatever order it does, the ids of the articles it returns are
  pairwise distinct.
\<close>

theorem reachable_one_article_per_id:
  "keyed (run newInMemoryRepo ops) \<and>
   (\<exists>ks. rangeOrder (articles (run newInMemoryRepo ops)) ks) \<and>
   (\<forall>ks. rangeOrder (articles (run newInMemoryRepo ops)) ks \<longrightarrow>
      distinct (map ID (fst (fst (inMemoryRepo_AllArticles ks (run newInMemoryRepo ops))))))"
proof (intro conjI allI impI)
  have "keyed newInMemoryRepo"
    by (simp add: keyed_def newInMemoryRepo_def)
  then show k: "keyed (run newInMemoryRepo ops)"
    by (rule keyed_run)
  have "finite (dom (articles newInMemoryRepo))"
    by (simp add: newInMemoryRepo_def)
  then have "finite (dom (articles (run newInMemoryRepo ops)))"
    by (rule finite_run)
  then show "\<exists>ks. rangeOrder (articles (run newInMemoryRepo ops)) ks"
    by (rule rangeOrder_exists)
  fix ks assume ro: "rangeOrder (articles (run newInMemoryRepo ops)) ks"
  then have "distinct ks" by (simp add: rangeOrder_def)
  then show "distinct (map ID (fst (fst (inMemoryRepo_AllArticles ks (run newInMemoryRepo ops)))))"
    by (simp add: keyed_AllArticles_IDs [OF k ro])
qed

theorem reachable_one_article_per_id_witness:
  "articles (run newInMemoryRepo
      [Insert (zeroArticle\<lparr>ID := ''a1''\<rparr>), Insert (zeroArticle\<lparr>ID := ''a2''\<rparr>),
       Update (zeroArticle\<lparr>ID := ''a1'', Title := ''U''\<rparr>), Update (zeroArticle\<lparr>ID := ''a3''\<rparr>),
       Delete ''a2'', Insert (zeroArticle\<lparr>ID := ''a1'', Title := ''V''\<rparr>)]) =
     [''a1'' \<mapsto> zeroArticle\<lparr>ID := ''a1'', Title := ''V''\<rparr>] \<and>
   rangeOrder (articles (run newInMemoryRepo
      [Insert (zeroArticle\<lparr>ID := ''a1''\<rparr>), Insert (zeroArticle\<lparr>ID := ''a2''\<rparr>),
       Update (zeroArticle\<lparr>ID := ''a1'', Title := ''U''\<rparr>), Update (zeroArticle\<lparr>ID := ''a3''\<rparr>),
       Delete ''a2'', Insert (zeroArticle\<lparr>ID := ''a1'', Title := ''V''\<rparr>)])) [''a1''] \<and>
   ID (the (articles (run newInMemoryRepo
      [Insert (zeroArticle\<lparr>ID := ''a1''\<rparr>), Insert (zeroArticle\<lparr>ID := ''a2''\<rparr>),
       Update (zeroArticle\<lparr>ID := ''a1'', Title := ''U''\<rparr>), Update (zeroArticle\<lparr>ID := ''a3''\<rparr>),
       Delete ''a2'', Insert (zeroArticle\<lparr>ID := ''a1'', Title := ''V''\<rparr>)]) ''a1'')) = ''a1'' \<and>
   distinct (map ID (fst (fst (inMemoryRepo_AllArticles [''a1''] (run newInMemoryRepo
      [Insert (zeroArticle\<lparr>ID := ''a1''\<rparr>), Insert (zeroArticle\<lparr>ID := ''a2''\<rparr>),
       Update (zeroArticle\<lparr>ID := ''a1'', Title := ''U''\<rparr>), Update (zeroArticle\<lparr>ID := ''a3''\<rparr>),
       Delete ''a2'', Insert (zeroArticle\<lparr>ID := ''a1'', Title := ''V''\<rparr>)])))))"
proof -
  let ?ops = "[Insert (zeroArticle\<lparr>ID := ''a1''\<rparr>), Insert (zeroArticle\<lparr>ID := ''a2''\<rparr>),
       Update (zeroArticle\<lparr>ID := ''a1'', Title := ''U''\<rparr>), Update (zeroArticle\<lparr>ID := ''a3''\<rparr>),
       Delete ''a2'', Insert (zeroArticle\<lparr>ID := ''a1'', Title := ''V''\<rparr>)]"
  have m: "articles (run newInMemoryRepo ?ops) = [''a1'' \<mapsto> zeroArticle\<lparr>ID := ''a1'', Title := ''V''\<rparr>]"
    by (auto simp: repo_defs fun_eq_iff)
  have ro: "rangeOrder (articles (run newInMemoryRepo ?ops)) [''a1'']"
    unfolding m by (simp add: rangeOrder_def)
  have "ID (the (articles (run newInMemoryRepo ?ops) ''a1'')) = ''a1''"
    using reachable_one_article_per_id [of ?ops] unfolding m keyed_def by simp
  moreover have "distinct (map ID (fst (fst (inMemoryRepo_AllArticles [''a1'']
      (run newInMemoryRepo ?ops)))))"
    using reachable_one_article_per_id [of ?ops] ro by blast
  ultimately show ?thesis
    using m ro by blast
qed

section \<open>Transport: fetching one article\<close>

text \<open>
  C4. The claim is that \<^verbatim>\<open>GET /articles/{id}\<close> answers 200 with the article as JSON when
  it is stored and 404 when the service reports that it is not found. The handler
  \<^verbatim>\<open>articleByID\<close> does neither: for every service, request and state it leaves the writer
  and the state as they were and calls no method of the service, so the answer that goes
  out is 200 with an empty body, whether the article is stored or not.
\<close>

theorem articleByID_writes_nothing:
  "articleByID (tracedSvc svc) w r (s, log) = (w, (s, log)) \<and>
   response_status (fst (articleByID (tracedSvc svc) [] r (s, log))) = 200 \<and>
   response_body (fst (articleByID (tracedSvc svc) [] r (s, log))) = []"
  by (simp add: articleByID_def StatusOK_def)

section \<open>Transport: adding an article whose body does not decode\<close>

text \<open>
  C5, as stated: whenever decoding fails, the service is called with the zero-valued
  article. The body \<^verbatim>\<open>{"id":"a1","title":5}\<close> fails to decode, the decoder having stored
  the id before it reports the ill-typed title, and the service is called with an article
  whose id is \<^verbatim>\<open>a1\<close>.
\<close>

theorem addArticle_decode_failure_counterexample:
  \<open>snd (sampleDecode ''{"id":"a1","title":5}'' zeroArticle) \<noteq> None \<and>
   snd (snd (addArticle sampleDecode (tracedSvc (articleSvc (inMemoryRepo_impl (\<lambda>_. [])))) []
              \<lparr>Body = ''{"id":"a1","title":5}'', Vars = Map.empty\<rparr> (newInMemoryRepo, []))) =
     [Svc_AddArticle (zeroArticle\<lparr>ID := ''a1''\<rparr>)] \<and>
   zeroArticle\<lparr>ID := ''a1''\<rparr> \<noteq> zeroArticle\<close>
  by (simp add: addArticle_def sampleDecode_def logged_def articleSvc_AddArticle_def
      repo_defs zeroArticle_def)

text \<open>
  C5, amended. For every request to \<^verbatim>\<open>addArticle\<close> whose body fails to decode, the
  handler writes 400 and \<^verbatim>\<open>bad request\<close> and goes on: it calls \<^verbatim>\<open>AddArticle\<close> of the
  service once, with the article variable as the decoder left it, and then writes the
  outcome of that call (500 and the error text, or 200 and \<^verbatim>\<open>ok\<close>). The article passed is
  the zero-valued one whenever the decoder stored nothing before it failed.
\<close>

theorem addArticle_decode_failure:
  assumes "Decode (Body r) zeroArticle = (article, Some e)"
  shows "addArticle Decode (tracedSvc svc) w r (s, log) =
           (w @ [WriteHeader 400, WriteString ''bad request''] @
              (case fst (svc_AddArticle svc s article) of
                 Some err \<Rightarrow> [WriteHeader 500, WriteString (Error err)]
               | None \<Rightarrow> [WriteHeader 200, WriteString ''ok'']),
            (snd (svc_AddArticle svc s article), log @ [Svc_AddArticle article])) \<and>
         (article = zeroArticle \<longrightarrow>
            snd (snd (addArticle Decode (tracedSvc svc) w r (s, log))) =
              log @ [Svc_AddArticle zeroArticle])"
  using assms
  by (cases "svc_AddArticle svc s article")
     (auto simp: addArticle_def logged_def status_defs split: option.splits)

theorem addArticle_decode_failure_witness:
  "sampleDecode (Body \<lparr>Body = [], Vars = Map.empty\<rparr>) zeroArticle =
     (zeroArticle, Some (json_error ''EOF'')) \<and>
   addArticle sampleDecode (tracedSvc (articleSvc (inMemoryRepo_impl (\<lambda>_. [])))) []
       \<lparr>Body = [], Vars = Map.empty\<rparr> (newInMemoryRepo, []) =
     ([WriteHeader 400, WriteString ''bad request'', WriteHeader 200, WriteString ''ok''],
      (\<lparr>articles = [[] \<mapsto> zeroArticle]\<rparr>, [Svc_AddArticle zeroArticle]))"
proof -
  have d: "sampleDecode (Body \<lparr>Body = [], Vars = Map.empty\<rparr>) zeroArticle =
      (zeroArticle, Some (json_error ''EOF''))"
    by (simp add: sampleDecode_def)
  show ?thesis
    using addArticle_decode_failure
      [where Decode = sampleDecode and r = "\<lparr>Body = [], Vars = Map.empty\<rparr>"
         and article = zeroArticle and e = "json_error ''EOF''"
         and svc = "articleSvc (inMemoryRepo_impl (\<lambda>_. []))" and w = "[]"
         and s = newInMemoryRepo and log = "[]"] d
    by (simp add: articleSvc_AddArticle_def repo_defs zeroArticle_def)
qed

section \<open>Transport: updating an article\<close>

text \<open>
  C8. For every request to \<^verbatim>\<open>updateArticle\<close> on the route \<^verbatim>\<open>/{id}\<close> whose body decodes,
  the handler calls \<^verbatim>\<open>UpdateArticle\<close> of the service once, with an article whose id is the
  path segment, whatever id the body carried, and whose title, tags, content and publish
  time are those decoded from the body; it then writes the outcome of that call.
\<close>

theorem updateArticle_path_id:
  assumes "Decode (Body r) zeroArticle = (decoded, None)"
    and "Vars r ''id'' = Some i"
  shows "updateArticle Decode (tracedSvc svc) w r (s, log) =
           (w @ (case fst (svc_UpdateArticle svc s (decoded\<lparr>ID := i\<rparr>)) of
                   Some err \<Rightarrow> [WriteHeader 500, WriteString (Error err)]
                 | None \<Rightarrow> [WriteHeader 200, WriteString ''ok'']),
            (snd (svc_UpdateArticle svc s (decoded\<lparr>ID := i\<rparr>)),
             log @ [Svc_UpdateArticle (decoded\<lparr>ID := i\<rparr>)])) \<and>
         ID (decoded\<lparr>ID := i\<rparr>) = i \<and>
         Title (decoded\<lparr>ID := i\<rparr>) = Title decoded \<and>
         Tags (decoded\<lparr>ID := i\<rparr>) = Tags decoded \<and>
         Content (decoded\<lparr>ID := i\<rparr>) = Content decoded \<and>
         PublishAt (decoded\<lparr>ID := i\<rparr>) = PublishAt decoded"
  using assms
  by (cases "svc_UpdateArticle svc s (decoded\<lparr>ID := i\<rparr>)")
     (auto simp: updateArticle_def logged_def status_defs split: option.splits)

theorem updateArticle_path_id_witness:
  \<open>sampleDecode (Body \<lparr>Body = ''{"id":"b7","title":"T"}'', Vars = [''id'' \<mapsto> ''a1'']\<rparr>) zeroArticle =
     (zeroArticle\<lparr>ID := ''b7'', Title := ''T''\<rparr>, None) \<and>
   updateArticle sampleDecode (tracedSvc (articleSvc (inMemoryRepo_impl (\<lambda>_. [])))) []
       \<lparr>Body = ''{"id":"b7","title":"T"}'', Vars = [''id'' \<mapsto> ''a1'']\<rparr>
       (\<lparr>articles = [''a1'' \<mapsto> zeroArticle\<lparr>ID := ''a1''\<rparr>]\<rparr>, []) =
     ([WriteHeader 200, WriteString ''ok''],
      (\<lparr>articles = [''a1'' \<mapsto> zeroArticle\<lparr>ID := ''a1'', Title := ''T''\<rparr>]\<rparr>,
       [Svc_UpdateArticle (zeroArticle\<lparr>ID := ''a1'', Title := ''T''\<rparr>)]))\<close>
proof -
  let ?r = \<open>\<lparr>Body = ''{"id":"b7","title":"T"}'', Vars = [''id'' \<mapsto> ''a1'']\<rparr>\<close>
  have d: "sampleDecode (Body ?r) zeroArticle = (zeroArticle\<lparr>ID := ''b7'', Title := ''T''\<rparr>, None)"
    by (simp add: sampleDecode_def)
  have v: "Vars ?r ''id'' = Some ''a1''"
    by simp
  show ?thesis
    using updateArticle_path_id
      [where Decode = sampleDecode and r = ?r
         and decoded = "zeroArticle\<lparr>ID := ''b7'', Title := ''T''\<rparr>" and i = "''a1''"
         and svc = "articleSvc (inMemoryRepo_impl (\<lambda>_. []))" and w = "[]"
         and s = "\<lparr>articles = [''a1'' \<mapsto> zeroArticle\<lparr>ID := ''a1''\<rparr>]\<rparr>" and log = "[]"] d v
    by (simp add: articleSvc_UpdateArticle_def repo_defs zeroArticle_def)
qed

end
